theory Spec2Isabelle
  imports Complex_Main
begin

section \<open>The filter expression system of \<^verbatim>\<open>src/client/filters.ts\<close>\<close>

text \<open>
  The development embeds the filter builder, the field-scoped predicate constructors,
  the validator and the pure combinators of \<^verbatim>\<open>filters.ts\<close>, over the data shapes
  of \<^verbatim>\<open>filters.types.ts\<close>.

  Arrays are the one kind of object the code mutates after sharing it (\<^verbatim>\<open>push\<close>), and
  \<^verbatim>\<open>build()\<close>, \<^verbatim>\<open>combineFiltersAnd\<close> and \<^verbatim>\<open>combineFiltersOr\<close> hand out
  composites that hold a caller's or a builder's array by reference. Arrays and builder objects
  therefore live in an explicit store; every other object (a leaf condition, the
  \<^verbatim>\<open>{must: ...}\<close> wrapper itself, a \<^verbatim>\<open>GeoPoint\<close>) is never assigned to by the code
  and is a plain value.
\<close>

subsection \<open>JavaScript numbers and primitive values\<close>

text \<open>
  A \<^verbatim>\<open>number\<close> is a finite value, \<^verbatim>\<open>NaN\<close> or one of the two infinities. The code
  only compares numbers, so a finite double is taken as the real number it denotes (the two
  zeroes are not told apart, as \<^verbatim>\<open>===\<close> does not).
\<close>

datatype jsnum = NaN | PosInf | NegInf | Fin real

text \<open>The relational operators \<^verbatim>\<open><\<close>, \<^verbatim>\<open>></\<close>, \<^verbatim>\<open><=\<close> on numbers: false as soon as one side is \<^verbatim>\<open>NaN\<close>.\<close>

fun js_lt :: "jsnum \<Rightarrow> jsnum \<Rightarrow> bool" where
  "js_lt NaN _ = False"
| "js_lt _ NaN = False"
| "js_lt PosInf _ = False"
| "js_lt _ PosInf = True"
| "js_lt NegInf NegInf = False"
| "js_lt NegInf (Fin y) = True"
| "js_lt (Fin x) NegInf = False"
| "js_lt (Fin x) (Fin y) = (x < y)"

definition js_gt :: "jsnum \<Rightarrow> jsnum \<Rightarrow> bool" where
  "js_gt x y = js_lt y x"

definition js_le :: "jsnum \<Rightarrow> jsnum \<Rightarrow> bool" where
  "js_le x y = (x \<noteq> NaN \<and> y \<noteq> NaN \<and> (x = y \<or> js_lt x y))"

fun isFinite :: "jsnum \<Rightarrow> bool" where
  "isFinite (Fin x) = True"
| "isFinite _ = False"

text \<open>
  A primitive-typed property of a filter object. The interfaces declare each one a
  \<^verbatim>\<open>string\<close>, a \<^verbatim>\<open>number\<close> or a \<^verbatim>\<open>boolean\<close>, but the validator is written for
  objects that break those declarations (the repository's tests pass it a match without a key),
  so a property holds any primitive; \<open>Undefined\<close> is also what reading an absent
  property gives.
\<close>

datatype jsval = Undefined | Null | Bool bool | Num jsnum | Str string

fun typeof :: "jsval \<Rightarrow> string" where
  "typeof Undefined = ''undefined''"
| "typeof Null = ''object''"
| "typeof (Bool b) = ''boolean''"
| "typeof (Num n) = ''number''"
| "typeof (Str s) = ''string''"

text \<open>\<^verbatim>\<open>!v\<close> is false exactly on the truthy values.\<close>

fun truthy :: "jsval \<Rightarrow> bool" where
  "truthy Undefined = False"
| "truthy Null = False"
| "truthy (Bool b) = b"
| "truthy (Num n) = (n \<noteq> NaN \<and> n \<noteq> Fin 0)"
| "truthy (Str s) = (s \<noteq> [])"

text \<open>The number a value of type \<^verbatim>\<open>number\<close> is; the code reads it only behind a
  \<^verbatim>\<open>typeof v !== 'number'\<close> guard.\<close>

fun number_of :: "jsval \<Rightarrow> jsnum" where
  "number_of (Num n) = n"
| "number_of _ = NaN"

subsection \<open>Filters (\<^verbatim>\<open>filters.types.ts\<close>)\<close>

type_synonym aref = nat
type_synonym bref = nat

text \<open>\<^verbatim>\<open>GeoPoint\<close>.\<close>

record GeoPoint =
  lon :: jsval
  lat :: jsval

text \<open>The bodies of the four leaf conditions. A range bound that is absent is \<open>Undefined\<close>;
  a point that is \<^verbatim>\<open>null\<close> is \<open>None\<close>. The \<^verbatim>\<open>bounding_box\<close> object of a
  \<^verbatim>\<open>geo_bounding_box\<close> body is flattened into its two corners.\<close>

record match_body =
  match_key :: jsval
  match_value :: jsval

record range_body =
  range_key :: jsval
  gte :: jsval
  lte :: jsval
  gt :: jsval
  lt :: jsval

record geo_bounding_box_body =
  bounding_box_key :: jsval
  top_left :: "GeoPoint option"
  bottom_right :: "GeoPoint option"

record geo_radius_body =
  radius_key :: jsval
  center :: "GeoPoint option"
  radius :: jsval

text \<open>
  \<^verbatim>\<open>type Filter = FilterCondition | AndFilter | OrFilter | NotFilter\<close>, one tag per value.
  A composite holds its child list by reference to an array of the store. The elements of a
  builder's \<^verbatim>\<open>conditions\<close> are typed \<^verbatim>\<open>FilterCondition\<close>, yet the code casts
  composites into it, so the model has the one type \<open>filter\<close> for both.
\<close>

datatype filter =
    MatchFilter match_body
  | RangeFilter range_body
  | GeoBoundingBoxFilter geo_bounding_box_body
  | GeoRadiusFilter geo_radius_body
  | AndFilter aref
  | OrFilter aref
  | NotFilter aref

text \<open>\<^verbatim>\<open>FilterValidationError(message, filterType?, field?)\<close>.\<close>

datatype FilterValidationError =
  FilterValidationError (message: string) (filterType: "string option") (error_field: "jsval option")

subsection \<open>The store: arrays and builder objects\<close>

text \<open>The three values of \<^verbatim>\<open>logicalOperator\<close>.\<close>

datatype logical_operator = must | should | must_not

text \<open>A \<^verbatim>\<open>FilterBuilder\<close> object: \<^verbatim>\<open>conditions\<close> is assigned once, at construction,
  and names an array; \<^verbatim>\<open>logicalOperator\<close> is reassigned by the mode switches.\<close>

record FilterBuilder =
  conditions :: aref
  logicalOperator :: logical_operator

record store =
  arrays :: "aref \<Rightarrow> filter list"
  next_array :: aref
  builders :: "bref \<Rightarrow> FilterBuilder"
  next_builder :: bref

definition empty_store :: store where
  "empty_store = \<lparr>arrays = (\<lambda>a. []), next_array = 0,
     builders = (\<lambda>b. \<lparr>conditions = 0, logicalOperator = must\<rparr>), next_builder = 0\<rparr>"

text \<open>An array literal \<^verbatim>\<open>[x1, ..., xn]\<close>: a fresh array.\<close>

definition new_array :: "filter list \<Rightarrow> store \<Rightarrow> aref \<times> store" where
  "new_array xs s =
     (next_array s, s\<lparr>arrays := (arrays s)(next_array s := xs), next_array := Suc (next_array s)\<rparr>)"

text \<open>\<^verbatim>\<open>a.push(x)\<close>: in place, seen through every reference to \<open>a\<close>.\<close>

definition push :: "aref \<Rightarrow> filter \<Rightarrow> store \<Rightarrow> store" where
  "push a x s = s\<lparr>arrays := (arrays s)(a := arrays s a @ [x])\<rparr>"

text \<open>\<^verbatim>\<open>new FilterBuilder()\<close>: \<^verbatim>\<open>conditions = []\<close>, \<^verbatim>\<open>logicalOperator = 'must'\<close>.\<close>

definition new_FilterBuilder :: "store \<Rightarrow> bref \<times> store" where
  "new_FilterBuilder s =
     (case new_array [] s of (a, s1) \<Rightarrow>
        (next_builder s1,
         s1\<lparr>builders := (builders s1)(next_builder s1 := \<lparr>conditions = a, logicalOperator = must\<rparr>),
            next_builder := Suc (next_builder s1)\<rparr>))"

text \<open>The array a builder accumulates into, and its current contents.\<close>

definition conditions_of :: "store \<Rightarrow> bref \<Rightarrow> aref" where
  "conditions_of s this = conditions (builders s this)"

definition accumulated :: "store \<Rightarrow> bref \<Rightarrow> filter list" where
  "accumulated s this = arrays s (conditions_of s this)"

subsection \<open>\<^verbatim>\<open>FilterBuilder\<close>\<close>

text \<open>Every method below but \<^verbatim>\<open>build\<close> and \<^verbatim>\<open>validate\<close> returns \<^verbatim>\<open>this\<close>; the
  model returns the store the call leaves behind.\<close>

definition addCondition :: "bref \<Rightarrow> filter \<Rightarrow> store \<Rightarrow> store" where
  "addCondition this condition s = push (conditions (builders s this)) condition s"

definition set_logicalOperator :: "bref \<Rightarrow> logical_operator \<Rightarrow> store \<Rightarrow> store" where
  "set_logicalOperator this m s =
     s\<lparr>builders := (builders s)(this := (builders s this)\<lparr>logicalOperator := m\<rparr>)\<rparr>"

definition FilterBuilder_and :: "bref \<Rightarrow> store \<Rightarrow> store" where
  "FilterBuilder_and this s = set_logicalOperator this must s"

definition FilterBuilder_or :: "bref \<Rightarrow> store \<Rightarrow> store" where
  "FilterBuilder_or this s = set_logicalOperator this should s"

definition FilterBuilder_not :: "bref \<Rightarrow> store \<Rightarrow> store" where
  "FilterBuilder_not this s = set_logicalOperator this must_not s"

text \<open>\<^verbatim>\<open>build()\<close>: \<open>None\<close> is \<^verbatim>\<open>null\<close>. The composite of the last branch holds
  \<^verbatim>\<open>this.conditions\<close> itself, not a copy. The \<^verbatim>\<open>default\<close> branch of the switch has no
  value of \<open>logical_operator\<close> to run on.\<close>

definition build :: "bref \<Rightarrow> store \<Rightarrow> filter option" where
  "build this s =
     (let b = builders s this; cs = arrays s (conditions b) in
      if length cs = 0 then None
      else if length cs = 1 then Some (cs ! 0)
      else (case logicalOperator b of
              must \<Rightarrow> Some (AndFilter (conditions b))
            | should \<Rightarrow> Some (OrFilter (conditions b))
            | must_not \<Rightarrow> Some (NotFilter (conditions b))))"

text \<open>\<^verbatim>\<open>andAll(...builders)\<close>: the loop runs over the argument builders in order, and each
  \<^verbatim>\<open>build()\<close> reads the store the pushes before it left.\<close>

fun andAll :: "bref \<Rightarrow> bref list \<Rightarrow> store \<Rightarrow> store" where
  "andAll this [] s = s"
| "andAll this (builder # rest) s =
     andAll this rest
       (case build builder s of
          None \<Rightarrow> s
        | Some f \<Rightarrow> push (conditions (builders s this)) f s)"

text \<open>\<^verbatim>\<open>orAny(...builders)\<close>: the loop fills the fresh array \<^verbatim>\<open>orConditions\<close>.\<close>

fun orAny_collect :: "aref \<Rightarrow> bref list \<Rightarrow> store \<Rightarrow> store" where
  "orAny_collect orConditions [] s = s"
| "orAny_collect orConditions (builder # rest) s =
     orAny_collect orConditions rest
       (case build builder s of
          None \<Rightarrow> s
        | Some f \<Rightarrow> push orConditions f s)"

definition orAny :: "bref \<Rightarrow> bref list \<Rightarrow> store \<Rightarrow> store" where
  "orAny this bs s =
     (case new_array [] s of (orConditions, s1) \<Rightarrow>
        (let s2 = orAny_collect orConditions bs s1 in
         if length (arrays s2 orConditions) > 0
         then push (conditions (builders s2 this)) (OrFilter orConditions) s2
         else s2))"

subsection \<open>The validator\<close>

text \<open>A call returns normally (\<open>Inr ()\<close>) or throws (\<open>Inl\<close>). A \<open>GeoPoint\<close> is an
  object, so of the first guard \<^verbatim>\<open>!point || typeof point !== 'object'\<close> only
  \<^verbatim>\<open>null\<close> is left.\<close>

definition validateGeoPoint :: "GeoPoint option \<Rightarrow> string \<Rightarrow> FilterValidationError + unit" where
  "validateGeoPoint point context =
     (case point of
        None \<Rightarrow>
          Inl (FilterValidationError (''Geographic point '' @ context @ '' must be an object'') None None)
      | Some p \<Rightarrow>
          if typeof (lat p) \<noteq> ''number'' \<or> \<not> isFinite (number_of (lat p)) then
            Inl (FilterValidationError
              (''Geographic point '' @ context @ '' latitude must be a finite number'') None None)
          else if typeof (lon p) \<noteq> ''number'' \<or> \<not> isFinite (number_of (lon p)) then
            Inl (FilterValidationError
              (''Geographic point '' @ context @ '' longitude must be a finite number'') None None)
          else if js_lt (number_of (lat p)) (Fin (- 90)) \<or> js_gt (number_of (lat p)) (Fin 90) then
            Inl (FilterValidationError
              (''Geographic point '' @ context @ '' latitude must be between -90 and 90'') None None)
          else if js_lt (number_of (lon p)) (Fin (- 180)) \<or> js_gt (number_of (lon p)) (Fin 180) then
            Inl (FilterValidationError
              (''Geographic point '' @ context @ '' longitude must be between -180 and 180'') None None)
          else Inr ())"

text \<open>\<^verbatim>\<open>validateFilterCondition(condition)\<close>; \<open>None\<close> is \<^verbatim>\<open>null\<close>. The four
  \<^verbatim>\<open>'tag' in condition\<close> tests are the four leaf constructors; a composite passes all of
  them by.\<close>

definition validateFilterCondition :: "filter option \<Rightarrow> FilterValidationError + unit" where
  "validateFilterCondition condition =
     (case condition of
        None \<Rightarrow> Inl (FilterValidationError ''Filter condition must be an object'' None None)
      | Some (MatchFilter m) \<Rightarrow>
          if \<not> truthy (match_key m) \<or> typeof (match_key m) \<noteq> ''string'' then
            Inl (FilterValidationError ''Match filter must have a valid key'' (Some ''match'') None)
          else if match_value m = Undefined \<or> match_value m = Null then
            Inl (FilterValidationError ''Match filter must have a value'' (Some ''match'')
                  (Some (match_key m)))
          else Inr ()
      | Some (RangeFilter r) \<Rightarrow>
          if \<not> truthy (range_key r) \<or> typeof (range_key r) \<noteq> ''string'' then
            Inl (FilterValidationError ''Range filter must have a valid key'' (Some ''range'') None)
          else if \<not> (gte r \<noteq> Undefined \<or> lte r \<noteq> Undefined \<or> gt r \<noteq> Undefined \<or> lt r \<noteq> Undefined) then
            Inl (FilterValidationError ''Range filter must have at least one condition''
                  (Some ''range'') (Some (range_key r)))
          else if list_ex (\<lambda>v. typeof v \<noteq> ''number'' \<or> \<not> isFinite (number_of v))
                    (filter (\<lambda>v. v \<noteq> Undefined) [gte r, lte r, gt r, lt r]) then
            Inl (FilterValidationError ''Range filter values must be finite numbers''
                  (Some ''range'') (Some (range_key r)))
          else Inr ()
      | Some (GeoBoundingBoxFilter g) \<Rightarrow>
          if \<not> truthy (bounding_box_key g) \<or> typeof (bounding_box_key g) \<noteq> ''string'' then
            Inl (FilterValidationError ''Geographic bounding box filter must have a valid key''
                  (Some ''geo_bounding_box'') None)
          else (case validateGeoPoint (top_left g) ''top_left'' of
                  Inl e \<Rightarrow> Inl e
                | Inr _ \<Rightarrow> validateGeoPoint (bottom_right g) ''bottom_right'')
      | Some (GeoRadiusFilter g) \<Rightarrow>
          if \<not> truthy (radius_key g) \<or> typeof (radius_key g) \<noteq> ''string'' then
            Inl (FilterValidationError ''Geographic radius filter must have a valid key''
                  (Some ''geo_radius'') None)
          else (case validateGeoPoint (center g) ''center'' of
                  Inl e \<Rightarrow> Inl e
                | Inr _ \<Rightarrow>
                    if typeof (radius g) \<noteq> ''number'' \<or> js_le (number_of (radius g)) (Fin 0) then
                      Inl (FilterValidationError ''Geographic radius must be a positive number''
                            (Some ''geo_radius'') (Some (radius_key g)))
                    else Inr ())
      | Some _ \<Rightarrow> Inr ())"

text \<open>\<^verbatim>\<open>FilterBuilder.validate()\<close>: the \<^verbatim>\<open>for ... of\<close> loop stops at the first throw.\<close>

fun validate_each :: "filter list \<Rightarrow> FilterValidationError + unit" where
  "validate_each [] = Inr ()"
| "validate_each (condition # rest) =
     (case validateFilterCondition (Some condition) of
        Inl e \<Rightarrow> Inl e
      | Inr _ \<Rightarrow> validate_each rest)"

definition validate :: "bref \<Rightarrow> store \<Rightarrow> FilterValidationError + unit" where
  "validate this s =
     (let cs = arrays s (conditions (builders s this)) in
      if length cs = 0
      then Inl (FilterValidationError ''Filter must have at least one condition'' None None)
      else validate_each cs)"

subsection \<open>\<^verbatim>\<open>FieldFilter\<close>\<close>

record FieldFilter =
  field :: string
  builder :: bref

definition FilterBuilder_where :: "bref \<Rightarrow> string \<Rightarrow> FieldFilter" where
  "FilterBuilder_where this f = \<lparr>field = f, builder = this\<rparr>"

definition equals :: "FieldFilter \<Rightarrow> jsval \<Rightarrow> store \<Rightarrow> store" where
  "equals this v s =
     addCondition (builder this) (MatchFilter \<lparr>match_key = Str (field this), match_value = v\<rparr>) s"

text \<open>\<^verbatim>\<open>notEquals\<close>: the array literal \<^verbatim>\<open>[condition]\<close> is a fresh array.\<close>

definition notEquals :: "FieldFilter \<Rightarrow> jsval \<Rightarrow> store \<Rightarrow> store" where
  "notEquals this v s =
     (case new_array [MatchFilter \<lparr>match_key = Str (field this), match_value = v\<rparr>] s of
        (a, s1) \<Rightarrow> addCondition (builder this) (NotFilter a) s1)"

definition greaterThan :: "FieldFilter \<Rightarrow> jsnum \<Rightarrow> store \<Rightarrow> store" where
  "greaterThan this v s =
     addCondition (builder this)
       (RangeFilter \<lparr>range_key = Str (field this), gte = Undefined, lte = Undefined,
                     gt = Num v, lt = Undefined\<rparr>) s"

text \<open>The two constructors with an eager check return what the call did (returned or threw)
  together with the store it left.\<close>

definition inRange ::
  "FieldFilter \<Rightarrow> jsnum \<Rightarrow> jsnum \<Rightarrow> store \<Rightarrow> (FilterValidationError + unit) \<times> store" where
  "inRange this min' max' s =
     (if js_gt min' max' then
        (Inl (FilterValidationError ''Range minimum cannot be greater than maximum''
               (Some ''range'') (Some (Str (field this)))), s)
      else
        (Inr (),
         addCondition (builder this)
           (RangeFilter \<lparr>range_key = Str (field this), gte = Num min', lte = Num max',
                         gt = Undefined, lt = Undefined\<rparr>) s))"

definition withinRadius ::
  "FieldFilter \<Rightarrow> GeoPoint \<Rightarrow> jsnum \<Rightarrow> store \<Rightarrow> (FilterValidationError + unit) \<times> store" where
  "withinRadius this c radiusMeters s =
     (if js_le radiusMeters (Fin 0) then
        (Inl (FilterValidationError ''Radius must be positive''
               (Some ''geo_radius'') (Some (Str (field this)))), s)
      else
        (Inr (),
         addCondition (builder this)
           (GeoRadiusFilter \<lparr>radius_key = Str (field this), center = Some c,
                             radius = Num radiusMeters\<rparr>) s))"

subsection \<open>Pure combinators\<close>

text \<open>\<^verbatim>\<open>filters\<close> is the caller's array; the composite returned for two or more elements
  holds that array.\<close>

definition combineFiltersAnd :: "aref \<Rightarrow> store \<Rightarrow> FilterValidationError + filter" where
  "combineFiltersAnd filters s =
     (if length (arrays s filters) = 0 then
        Inl (FilterValidationError ''Cannot combine empty filter array'' None None)
      else if length (arrays s filters) = 1 then Inr (arrays s filters ! 0)
      else Inr (AndFilter filters))"

definition combineFiltersOr :: "aref \<Rightarrow> store \<Rightarrow> FilterValidationError + filter" where
  "combineFiltersOr filters s =
     (if length (arrays s filters) = 0 then
        Inl (FilterValidationError ''Cannot combine empty filter array'' None None)
      else if length (arrays s filters) = 1 then Inr (arrays s filters ! 0)
      else Inr (OrFilter filters))"

text \<open>The four leaf tags.\<close>

fun has_leaf_tag :: "filter \<Rightarrow> bool" where
  "has_leaf_tag (MatchFilter m) = True"
| "has_leaf_tag (RangeFilter r) = True"
| "has_leaf_tag (GeoBoundingBoxFilter g) = True"
| "has_leaf_tag (GeoRadiusFilter g) = True"
| "has_leaf_tag _ = False"

subsection \<open>\<^verbatim>\<open>serializeFilter\<close>: \<^verbatim>\<open>JSON.stringify\<close> and \<^verbatim>\<open>JSON.parse\<close>\<close>

text \<open>
  A JavaScript value as \<^verbatim>\<open>JSON.stringify\<close> reads it and as deep equality compares it: a
  primitive, an array, or an object. An object is the finite map from the names of its own
  properties to their values; the model keeps it as the list of its properties in alphabetical
  order of the names, so that two objects are deep-equal exactly when their lists are equal. The
  order in which the code or a caller wrote the properties is not modelled: neither deep equality
  nor the value \<^verbatim>\<open>JSON.parse\<close> returns depends on it. A JSON document is kept the same way;
  of the string that \<^verbatim>\<open>JSON.stringify\<close> returns, the order of the members of an object,
  white space and the digits of a number are not modelled. JSON has no \<^verbatim>\<open>undefined\<close>,
  no \<^verbatim>\<open>NaN\<close> and no infinity.
\<close>

datatype jsvalue =
    VUndefined | VNull | VBool bool | VNumber jsnum | VString string
  | VArray "jsvalue list" | VObject "(string \<times> jsvalue) list"

datatype json =
    JNull | JBool bool | JNumber real | JString string
  | JArray "json list" | JObject "(string \<times> json) list"

datatype js_error = TypeError | SyntaxError

text \<open>
  The value of a leaf condition. A property that the interfaces declare without \<^verbatim>\<open>?\<close>
  (\<^verbatim>\<open>key\<close>, \<^verbatim>\<open>value\<close>, \<^verbatim>\<open>radius\<close>, \<^verbatim>\<open>lat\<close>, \<^verbatim>\<open>lon\<close>) is written by
  every constructor of the code, so \<open>Undefined\<close> in it is an own property whose value is
  \<^verbatim>\<open>undefined\<close>. The four bounds of a range are optional properties, which the
  constructors write only when the bound is given: \<open>Undefined\<close> in one of them is a
  property that is not there.
\<close>

fun prim :: "jsval \<Rightarrow> jsvalue" where
  "prim Undefined = VUndefined"
| "prim Null = VNull"
| "prim (Bool b) = VBool b"
| "prim (Num n) = VNumber n"
| "prim (Str t) = VString t"

definition optional :: "string \<Rightarrow> jsval \<Rightarrow> (string \<times> jsvalue) list" where
  "optional k v = (if v = Undefined then [] else [(k, prim v)])"

definition point_value :: "GeoPoint option \<Rightarrow> jsvalue" where
  "point_value p =
     (case p of
        None \<Rightarrow> VNull
      | Some q \<Rightarrow> VObject [(''lat'', prim (lat q)), (''lon'', prim (lon q))])"

fun leaf_value :: "filter \<Rightarrow> jsvalue" where
  "leaf_value (MatchFilter m) =
     VObject [(''match'', VObject [(''key'', prim (match_key m)), (''value'', prim (match_value m))])]"
| "leaf_value (RangeFilter r) =
     VObject [(''range'', VObject (optional ''gt'' (gt r) @ optional ''gte'' (gte r) @
                [(''key'', prim (range_key r))] @ optional ''lt'' (lt r) @ optional ''lte'' (lte r)))]"
| "leaf_value (GeoBoundingBoxFilter g) =
     VObject [(''geo_bounding_box'', VObject
        [(''bounding_box'', VObject [(''bottom_right'', point_value (bottom_right g)),
                                    (''top_left'', point_value (top_left g))]),
         (''key'', prim (bounding_box_key g))])]"
| "leaf_value (GeoRadiusFilter g) =
     VObject [(''geo_radius'', VObject
        [(''center'', point_value (center g)), (''key'', prim (radius_key g)),
         (''radius'', prim (radius g))])]"
| "leaf_value _ = VUndefined"

text \<open>
  The value of a filter in a store, \<open>filter_value n s f\<close>: the tree that \<open>f\<close> unfolds to
  when the arrays of its composites are read from \<open>s\<close>, if that tree nests at most \<open>n\<close>
  arrays; \<open>None\<close> if it does not (the filter is nested deeper, or it contains itself and
  unfolds to no tree at all).
\<close>

definition composite_value :: "string \<Rightarrow> jsvalue list \<Rightarrow> jsvalue" where
  "composite_value tag vs = VObject [(tag, VArray vs)]"

fun tag_of :: "filter \<Rightarrow> string" where
  "tag_of (AndFilter a) = ''must''"
| "tag_of (OrFilter a) = ''should''"
| "tag_of (NotFilter a) = ''must_not''"
| "tag_of _ = []"

fun array_of :: "filter \<Rightarrow> aref" where
  "array_of (AndFilter a) = a"
| "array_of (OrFilter a) = a"
| "array_of (NotFilter a) = a"
| "array_of _ = 0"

fun filter_value :: "nat \<Rightarrow> store \<Rightarrow> filter \<Rightarrow> jsvalue option" where
  "filter_value n s f =
     (if has_leaf_tag f then Some (leaf_value f)
      else (case n of
              0 \<Rightarrow> None
            | Suc m \<Rightarrow>
                map_option (composite_value (tag_of f))
                  (those (map (filter_value m s) (arrays s (array_of f))))))"

text \<open>
  The walk of \<^verbatim>\<open>JSON.stringify\<close> through a filter. It keeps the stack of the arrays it is
  inside and throws \<^verbatim>\<open>TypeError\<close> on meeting one of them again (a circular structure);
  the elements of an array are walked in order, and the first throw ends the walk. The
  \<^verbatim>\<open>{must: ...}\<close> object around an array is a value of the model, and a structure can
  only be circular through an array, so the stack of arrays meets what the stack of objects and
  arrays of \<^verbatim>\<open>JSON.stringify\<close> meets. The number
  \<open>n\<close> bounds the nesting of arrays the walk may enter, and \<open>None\<close> says that the walk
  has not finished within it.
\<close>

fun all_values :: "(js_error + jsvalue) option list \<Rightarrow> (js_error + jsvalue list) option" where
  "all_values [] = Some (Inr [])"
| "all_values (r # rs) =
     (case r of
        None \<Rightarrow> None
      | Some (Inl e) \<Rightarrow> Some (Inl e)
      | Some (Inr v) \<Rightarrow>
          (case all_values rs of
             None \<Rightarrow> None
           | Some (Inl e) \<Rightarrow> Some (Inl e)
           | Some (Inr vs) \<Rightarrow> Some (Inr (v # vs))))"

fun JSON_walk :: "nat \<Rightarrow> aref list \<Rightarrow> store \<Rightarrow> filter \<Rightarrow> (js_error + jsvalue) option" where
  "JSON_walk n stack s f =
     (if has_leaf_tag f then Some (Inr (leaf_value f))
      else (case n of
              0 \<Rightarrow> None
            | Suc m \<Rightarrow>
                if array_of f \<in> set stack then Some (Inl TypeError)
                else (case all_values (map (JSON_walk m (array_of f # stack) s) (arrays s (array_of f))) of
                        None \<Rightarrow> None
                      | Some (Inl e) \<Rightarrow> Some (Inl e)
                      | Some (Inr vs) \<Rightarrow> Some (Inr (composite_value (tag_of f) vs)))))"

text \<open>
  \<^verbatim>\<open>JSON.stringify\<close> on a value: \<^verbatim>\<open>undefined\<close> has no document, an element of an
  array that is \<^verbatim>\<open>undefined\<close> is written \<^verbatim>\<open>null\<close>, a property whose value is
  \<^verbatim>\<open>undefined\<close> is left out, and a number that is not finite is written \<^verbatim>\<open>null\<close>.
\<close>

fun JSON_stringify :: "jsvalue \<Rightarrow> json option"
  and stringify_elements :: "jsvalue list \<Rightarrow> json list"
  and stringify_members :: "(string \<times> jsvalue) list \<Rightarrow> (string \<times> json) list" where
  "JSON_stringify VUndefined = None"
| "JSON_stringify VNull = Some JNull"
| "JSON_stringify (VBool b) = Some (JBool b)"
| "JSON_stringify (VNumber n) = Some (case n of Fin x \<Rightarrow> JNumber x | _ \<Rightarrow> JNull)"
| "JSON_stringify (VString t) = Some (JString t)"
| "JSON_stringify (VArray vs) = Some (JArray (stringify_elements vs))"
| "JSON_stringify (VObject kvs) = Some (JObject (stringify_members kvs))"
| "stringify_elements [] = []"
| "stringify_elements (v # vs) =
     (case JSON_stringify v of None \<Rightarrow> JNull | Some j \<Rightarrow> j) # stringify_elements vs"
| "stringify_members [] = []"
| "stringify_members ((k, v) # kvs) =
     (case JSON_stringify v of None \<Rightarrow> [] | Some j \<Rightarrow> [(k, j)]) @ stringify_members kvs"

fun JSON_parse :: "json \<Rightarrow> jsvalue"
  and parse_elements :: "json list \<Rightarrow> jsvalue list"
  and parse_members :: "(string \<times> json) list \<Rightarrow> (string \<times> jsvalue) list" where
  "JSON_parse JNull = VNull"
| "JSON_parse (JBool b) = VBool b"
| "JSON_parse (JNumber x) = VNumber (Fin x)"
| "JSON_parse (JString t) = VString t"
| "JSON_parse (JArray js) = VArray (parse_elements js)"
| "JSON_parse (JObject kjs) = VObject (parse_members kjs)"
| "parse_elements [] = []"
| "parse_elements (j # js) = JSON_parse j # parse_elements js"
| "parse_members [] = []"
| "parse_members ((k, j) # kjs) = (k, JSON_parse j) # parse_members kjs"


text \<open>\<^verbatim>\<open>serializeFilter(filter) = JSON.stringify(filter, null, 2)\<close>; \<open>Inr None\<close> is the
  result \<^verbatim>\<open>undefined\<close>.\<close>

definition serializeFilter :: "nat \<Rightarrow> store \<Rightarrow> filter \<Rightarrow> (js_error + json option) option" where
  "serializeFilter n s f =
     (case JSON_walk n [] s f of
        None \<Rightarrow> None
      | Some (Inl e) \<Rightarrow> Some (Inl e)
      | Some (Inr v) \<Rightarrow> Some (Inr (JSON_stringify v)))"


subsection \<open>Notions the statements use\<close>

text \<open>The composite keyed by a logical mode, and the child list of a filter in a store.\<close>

fun composite :: "logical_operator \<Rightarrow> aref \<Rightarrow> filter" where
  "composite must a = AndFilter a"
| "composite should a = OrFilter a"
| "composite must_not a = NotFilter a"

fun children :: "store \<Rightarrow> filter \<Rightarrow> filter list" where
  "children s (AndFilter a) = arrays s a"
| "children s (OrFilter a) = arrays s a"
| "children s (NotFilter a) = arrays s a"
| "children s _ = []"

text \<open>A sequence of calls on one builder: the three mode switches and \<^verbatim>\<open>addCondition\<close>;
  \<open>mode_after\<close> is the mode the last switch of the sequence asked for, \<open>appended\<close> the
  conditions it appended, in order.\<close>

datatype call = Call_and | Call_or | Call_not | Call_addCondition filter

fun do_call :: "bref \<Rightarrow> call \<Rightarrow> store \<Rightarrow> store" where
  "do_call this Call_and s = FilterBuilder_and this s"
| "do_call this Call_or s = FilterBuilder_or this s"
| "do_call this Call_not s = FilterBuilder_not this s"
| "do_call this (Call_addCondition c) s = addCondition this c s"

fun do_calls :: "bref \<Rightarrow> call list \<Rightarrow> store \<Rightarrow> store" where
  "do_calls this [] s = s"
| "do_calls this (c # cs) s = do_calls this cs (do_call this c s)"

fun mode_after :: "logical_operator \<Rightarrow> call list \<Rightarrow> logical_operator" where
  "mode_after m [] = m"
| "mode_after m (Call_and # cs) = mode_after must cs"
| "mode_after m (Call_or # cs) = mode_after should cs"
| "mode_after m (Call_not # cs) = mode_after must_not cs"
| "mode_after m (Call_addCondition c # cs) = mode_after m cs"

fun appended :: "call list \<Rightarrow> filter list" where
  "appended [] = []"
| "appended (Call_addCondition c # cs) = c # appended cs"
| "appended (_ # cs) = appended cs"

text \<open>Two conditions for examples: \<^verbatim>\<open>{match: {key: 'a', value: 1}}\<close> and
  \<^verbatim>\<open>{match: {key: 'b', value: 2}}\<close>.\<close>

definition match_a :: filter where
  "match_a = MatchFilter \<lparr>match_key = Str ''a'', match_value = Num (Fin 1)\<rparr>"

definition match_b :: filter where
  "match_b = MatchFilter \<lparr>match_key = Str ''b'', match_value = Num (Fin 2)\<rparr>"

text \<open>A match with an empty key, \<^verbatim>\<open>{match: {key: '', value: 'NVDA'}}\<close>.\<close>

definition match_empty_key :: filter where
  "match_empty_key = MatchFilter \<lparr>match_key = Str [], match_value = Str ''NVDA''\<rparr>"

text \<open>The results of the \<^verbatim>\<open>build()\<close> calls that the loop of \<^verbatim>\<open>andAll\<close> or
  \<^verbatim>\<open>orAny\<close> makes, in order, when it pushes onto the array \<open>target\<close>.\<close>

fun build_results :: "aref \<Rightarrow> bref list \<Rightarrow> store \<Rightarrow> filter option list" where
  "build_results target [] s = []"
| "build_results target (b # rest) s =
     build b s #
     build_results target rest
       (case build b s of None \<Rightarrow> s | Some f \<Rightarrow> push target f s)"

text \<open>Four builders: builder 0 without conditions, builder 1 with the two conditions
  \<open>match_a\<close> and \<open>match_b\<close>, builder 2 without conditions, builder 3 with \<open>match_a\<close>.
  Builder \<open>i\<close> accumulates into array \<open>i\<close>.\<close>

definition four_builders :: store where
  "four_builders =
     addCondition 3 match_a (addCondition 1 match_b (addCondition 1 match_a
       (snd (new_FilterBuilder (snd (new_FilterBuilder (snd (new_FilterBuilder
         (snd (new_FilterBuilder empty_store))))))))))"

text \<open>A new builder after \<^verbatim>\<open>where('a').equals(1)\<close> and \<^verbatim>\<open>where('b').equals(2)\<close>.\<close>

definition two_conditions :: store where
  "two_conditions =
     equals (FilterBuilder_where 0 ''b'') (Num (Fin 2))
       (equals (FilterBuilder_where 0 ''a'') (Num (Fin 1)) (snd (new_FilterBuilder empty_store)))"


definition finite_bound :: store where
  "finite_bound = greaterThan (FilterBuilder_where 0 ''price'') (Fin 100) (snd (new_FilterBuilder empty_store))"

text \<open>Builder 0 without conditions and builder 1 with two malformed conditions: a match with
  an empty key and a range without a bound.\<close>

definition malformed_children :: store where
  "malformed_children =
     addCondition 1
       (RangeFilter \<lparr>range_key = Str ''price'', gte = Undefined, lte = Undefined,
                      gt = Undefined, lt = Undefined\<rparr>)
       (addCondition 1 match_empty_key
          (snd (new_FilterBuilder (snd (new_FilterBuilder empty_store)))))"

text \<open>
  Calls on a builder after a \<^verbatim>\<open>build()\<close>: the mode switches, \<^verbatim>\<open>build()\<close> and
  \<^verbatim>\<open>validate()\<close> (which read the store and leave it as it is), and the four appending
  calls \<^verbatim>\<open>addCondition(c)\<close>, \<^verbatim>\<open>where(k).equals(v)\<close>, \<^verbatim>\<open>andAll(...bs)\<close> and
  \<^verbatim>\<open>orAny(...bs)\<close>; \<open>laters\<close> runs a sequence of them.
\<close>

datatype later_call =
    Later_and | Later_or | Later_not | Later_build | Later_validate
  | Later_addCondition filter | Later_equals string jsval
  | Later_andAll "bref list" | Later_orAny "bref list"

fun later :: "bref \<Rightarrow> later_call \<Rightarrow> store \<Rightarrow> store" where
  "later this Later_and s = FilterBuilder_and this s"
| "later this Later_or s = FilterBuilder_or this s"
| "later this Later_not s = FilterBuilder_not this s"
| "later this Later_build s = s"
| "later this Later_validate s = s"
| "later this (Later_addCondition c) s = addCondition this c s"
| "later this (Later_equals k v) s = equals (FilterBuilder_where this k) v s"
| "later this (Later_andAll bs) s = andAll this bs s"
| "later this (Later_orAny bs) s = orAny this bs s"

fun laters :: "bref \<Rightarrow> later_call list \<Rightarrow> store \<Rightarrow> store" where
  "laters this [] s = s"
| "laters this (c # cs) s = laters this cs (later this c s)"

fun mode_switch_or_read :: "later_call \<Rightarrow> bool" where
  "mode_switch_or_read Later_and = True"
| "mode_switch_or_read Later_or = True"
| "mode_switch_or_read Later_not = True"
| "mode_switch_or_read Later_build = True"
| "mode_switch_or_read Later_validate = True"
| "mode_switch_or_read _ = False"

section \<open>Properties\<close>

lemmas store_ops =
  new_FilterBuilder_def new_array_def empty_store_def addCondition_def push_def
  set_logicalOperator_def FilterBuilder_and_def FilterBuilder_or_def FilterBuilder_not_def
  accumulated_def conditions_of_def

subsection \<open>What the store operations change\<close>

lemma push_frame [simp]:
  "arrays (push a x s) = (arrays s)(a := arrays s a @ [x])"
  "builders (push a x s) = builders s"
  "next_array (push a x s) = next_array s"
  "next_builder (push a x s) = next_builder s"
  by (simp_all add: push_def)

lemma conditions_of_push [simp]: "conditions_of (push a x s) b = conditions_of s b"
  by (simp add: conditions_of_def)

lemma build_push_other:
  "conditions_of s b \<noteq> a \<Longrightarrow> build b (push a x s) = build b s"
  by (simp add: build_def conditions_of_def)

lemma new_array_frame [simp]:
  "fst (new_array xs s) = next_array s"
  "arrays (snd (new_array xs s)) = (arrays s)(next_array s := xs)"
  "builders (snd (new_array xs s)) = builders s"
  "next_array (snd (new_array xs s)) = Suc (next_array s)"
  "next_builder (snd (new_array xs s)) = next_builder s"
  by (simp_all add: new_array_def)

lemma build_new_array_other:
  "conditions_of s b \<noteq> next_array s \<Longrightarrow> build b (snd (new_array xs s)) = build b s"
  by (simp add: build_def conditions_of_def)

subsection \<open>\<^verbatim>\<open>build()\<close>\<close>

lemma build_cases:
  "build this s =
     (case accumulated s this of
        [] \<Rightarrow> None
      | [c] \<Rightarrow> Some c
      | _ \<Rightarrow> Some (composite (logicalOperator (builders s this)) (conditions_of s this)))"
  by (simp add: build_def accumulated_def conditions_of_def Let_def
      split: list.splits logical_operator.splits)

lemma do_call_frame:
  "conditions_of (do_call this c s) this = conditions_of s this"
  "accumulated (do_call this c s) this = accumulated s this @ appended [c]"
  "logicalOperator (builders (do_call this c s) this) = mode_after (logicalOperator (builders s this)) [c]"
  by (cases c; simp add: conditions_of_def accumulated_def FilterBuilder_and_def FilterBuilder_or_def
      FilterBuilder_not_def set_logicalOperator_def addCondition_def push_def)+

lemma appended_Cons: "appended (c # cs) = appended [c] @ appended cs"
  by (cases c) simp_all

lemma mode_after_Cons: "mode_after m (c # cs) = mode_after (mode_after m [c]) cs"
  by (cases c) simp_all

lemma do_calls_frame:
  "conditions_of (do_calls this cs s) this = conditions_of s this \<and>
   accumulated (do_calls this cs s) this = accumulated s this @ appended cs \<and>
   logicalOperator (builders (do_calls this cs s) this) = mode_after (logicalOperator (builders s this)) cs"
proof (induction cs arbitrary: s)
  case Nil
  show ?case by simp
next
  case (Cons c cs)
  show ?case
    using Cons.IH [of "do_call this c s"] do_call_frame [of this c s]
      appended_Cons [of c cs] mode_after_Cons [of _ c cs]
    by simp
qed

lemma new_FilterBuilder_fresh:
  "new_FilterBuilder s = (b, s0) \<Longrightarrow>
     accumulated s0 b = [] \<and> logicalOperator (builders s0 b) = must"
  by (auto simp: new_FilterBuilder_def new_array_def accumulated_def conditions_of_def)

text \<open>
  Claim C1. A builder that holds at least two conditions builds the composite keyed by its
  current \<^verbatim>\<open>logicalOperator\<close> (\<^verbatim>\<open>must\<close>, \<^verbatim>\<open>should\<close> or \<^verbatim>\<open>must_not\<close>), and the
  child list of that composite is the whole \<^verbatim>\<open>conditions\<close> list. In terms of calls: after
  any sequence of mode switches and \<^verbatim>\<open>addCondition\<close> calls on a new builder that appends at
  least two conditions, \<^verbatim>\<open>build()\<close> returns the composite keyed by the mode the last switch
  asked for (\<^verbatim>\<open>must\<close> when there was none) over all the appended conditions in order, whatever
  the mode was when each one was appended.
\<close>

theorem build_late_bound_mode:
  "(2 \<le> length (accumulated s this) \<longrightarrow>
      build this s = Some (composite (logicalOperator (builders s this)) (conditions_of s this)) \<and>
      children s (composite (logicalOperator (builders s this)) (conditions_of s this)) = accumulated s this) \<and>
   (2 \<le> length (appended cs) \<longrightarrow>
      (let b = fst (new_FilterBuilder s0); s1 = do_calls b cs (snd (new_FilterBuilder s0)) in
        build b s1 = Some (composite (mode_after must cs) (conditions_of s1 b)) \<and>
        children s1 (composite (mode_after must cs) (conditions_of s1 b)) = appended cs))"
proof (intro conjI impI)
  assume two: "2 \<le> length (accumulated s this)"
  then show "build this s = Some (composite (logicalOperator (builders s this)) (conditions_of s this))"
    by (auto simp: build_cases split: list.splits)
  show "children s (composite (logicalOperator (builders s this)) (conditions_of s this)) = accumulated s this"
    by (cases "logicalOperator (builders s this)"; simp add: accumulated_def)
next
  assume two: "2 \<le> length (appended cs)"
  obtain b s1 where new: "new_FilterBuilder s0 = (b, s1)" by (cases "new_FilterBuilder s0")
  let ?s = "do_calls b cs s1"
  have fresh: "accumulated s1 b = []" "logicalOperator (builders s1 b) = must"
    using new_FilterBuilder_fresh [OF new] by simp_all
  have acc: "accumulated ?s b = appended cs" and mode: "logicalOperator (builders ?s b) = mode_after must cs"
    using do_calls_frame [of b cs s1] fresh by simp_all
  have "build b ?s = Some (composite (mode_after must cs) (conditions_of ?s b))"
    using two acc mode by (auto simp: build_cases split: list.splits)
  moreover have "children ?s (composite (mode_after must cs) (conditions_of ?s b)) = appended cs"
    using acc by (cases "mode_after must cs"; simp add: accumulated_def)
  ultimately show "let b = fst (new_FilterBuilder s0); s1 = do_calls b cs (snd (new_FilterBuilder s0)) in
        build b s1 = Some (composite (mode_after must cs) (conditions_of s1 b)) \<and>
        children s1 (composite (mode_after must cs) (conditions_of s1 b)) = appended cs"
    by (simp add: new Let_def)
qed

text \<open>The example of the specification: \<^verbatim>\<open>where('a').equals(1)\<close>, \<^verbatim>\<open>or()\<close>,
  \<^verbatim>\<open>where('b').equals(2)\<close>, \<^verbatim>\<open>build()\<close> gives \<^verbatim>\<open>{should: [a, b]}\<close>.\<close>

theorem build_late_bound_mode_witness:
  "2 \<le> length (appended [Call_addCondition match_a, Call_or, Call_addCondition match_b]) \<and>
   build 0 (do_calls 0 [Call_addCondition match_a, Call_or, Call_addCondition match_b]
              (snd (new_FilterBuilder empty_store))) = Some (OrFilter 0) \<and>
   children (do_calls 0 [Call_addCondition match_a, Call_or, Call_addCondition match_b]
              (snd (new_FilterBuilder empty_store))) (OrFilter 0) = [match_a, match_b]"
  using build_late_bound_mode
    [of "do_calls 0 [Call_addCondition match_a, Call_or, Call_addCondition match_b]
           (snd (new_FilterBuilder empty_store))" 0
        "[Call_addCondition match_a, Call_or, Call_addCondition match_b]" empty_store]
  by (simp add: store_ops Let_def)

text \<open>
  Claim C4. \<^verbatim>\<open>build()\<close> returns \<^verbatim>\<open>null\<close> on a builder with no condition, and on a builder
  with exactly one condition it returns that condition, not a composite around it; both under
  every logical mode.
\<close>

theorem build_zero_or_one:
  "(accumulated s this = [] \<longrightarrow>
      build this s = None \<and> (\<forall>m. build this (set_logicalOperator this m s) = None)) \<and>
   (accumulated s this = [c] \<longrightarrow>
      build this s = Some c \<and> (\<forall>m. build this (set_logicalOperator this m s) = Some c))"
  by (simp add: build_def accumulated_def conditions_of_def set_logicalOperator_def)

theorem build_zero_or_one_witness:
  "build 0 (snd (new_FilterBuilder empty_store)) = None \<and>
   build 0 (set_logicalOperator 0 must_not (snd (new_FilterBuilder empty_store))) = None \<and>
   build 0 (addCondition 0 match_a (snd (new_FilterBuilder empty_store))) = Some match_a \<and>
   build 0 (set_logicalOperator 0 should
              (addCondition 0 match_a (snd (new_FilterBuilder empty_store)))) = Some match_a"
  using build_zero_or_one [of "snd (new_FilterBuilder empty_store)" 0 match_a]
    build_zero_or_one [of "addCondition 0 match_a (snd (new_FilterBuilder empty_store))" 0 match_a]
  by (simp add: store_ops)

subsection \<open>The pure combinators\<close>

text \<open>
  Claim C7. \<^verbatim>\<open>combineFiltersAnd\<close> and \<^verbatim>\<open>combineFiltersOr\<close> throw exactly when the input
  array is empty, return the element itself when it has exactly one, and for two or more return
  \<^verbatim>\<open>{must: filters}\<close> and \<^verbatim>\<open>{should: filters}\<close> over the input array.
\<close>

theorem combineFilters_cases:
  "(isl (combineFiltersAnd filters s) \<longleftrightarrow> arrays s filters = []) \<and>
   (isl (combineFiltersOr filters s) \<longleftrightarrow> arrays s filters = []) \<and>
   (arrays s filters = [f] \<longrightarrow>
      combineFiltersAnd filters s = Inr f \<and> combineFiltersOr filters s = Inr f) \<and>
   (2 \<le> length (arrays s filters) \<longrightarrow>
      combineFiltersAnd filters s = Inr (AndFilter filters) \<and>
      combineFiltersOr filters s = Inr (OrFilter filters))"
  by (cases "arrays s filters") (auto simp: combineFiltersAnd_def combineFiltersOr_def)

theorem combineFilters_cases_witness:
  "combineFiltersAnd 0 (snd (new_array [] empty_store)) =
     Inl (FilterValidationError ''Cannot combine empty filter array'' None None) \<and>
   combineFiltersOr 0 (snd (new_array [] empty_store)) =
     Inl (FilterValidationError ''Cannot combine empty filter array'' None None) \<and>
   combineFiltersAnd 0 (snd (new_array [match_a] empty_store)) = Inr match_a \<and>
   combineFiltersOr 0 (snd (new_array [match_a] empty_store)) = Inr match_a \<and>
   combineFiltersAnd 0 (snd (new_array [match_a, match_b] empty_store)) = Inr (AndFilter 0) \<and>
   combineFiltersOr 0 (snd (new_array [match_a, match_b] empty_store)) = Inr (OrFilter 0)"
  using combineFilters_cases [of 0 "snd (new_array [] empty_store)" match_a]
    combineFilters_cases [of 0 "snd (new_array [match_a] empty_store)" match_a]
    combineFilters_cases [of 0 "snd (new_array [match_a, match_b] empty_store)" match_a]
  by (simp add: store_ops combineFiltersAnd_def combineFiltersOr_def)

subsection \<open>The eager checks of \<^verbatim>\<open>inRange\<close> and \<^verbatim>\<open>withinRadius\<close>\<close>

lemma js_gt_Fin [simp]: "js_gt (Fin x) (Fin y) \<longleftrightarrow> y < x"
  by (simp add: js_gt_def)

lemma js_le_Fin [simp]: "js_le (Fin x) (Fin y) \<longleftrightarrow> x \<le> y"
  by (auto simp: js_le_def)

text \<open>
  Claim C5. \<^verbatim>\<open>inRange(min, max)\<close> throws exactly when \<^verbatim>\<open>min > max\<close> and
  \<^verbatim>\<open>withinRadius(center, radiusMeters)\<close> exactly when \<^verbatim>\<open>radiusMeters <= 0\<close> (the
  comparisons of JavaScript; on finite numbers, those of the reals). A call that throws leaves
  the store as it was, so the builder's conditions are unchanged; a call that returns has
  appended the range \<^verbatim>\<open>{gte: min, lte: max}\<close>, respectively the radius condition, to the
  conditions of the owning builder.
\<close>

theorem eager_checks:
  "(isl (fst (inRange this lo hi s)) \<longleftrightarrow> js_gt lo hi) \<and>
   (js_gt lo hi \<longrightarrow> snd (inRange this lo hi s) = s) \<and>
   (\<not> js_gt lo hi \<longrightarrow>
      accumulated (snd (inRange this lo hi s)) (builder this) =
        accumulated s (builder this) @
          [RangeFilter \<lparr>range_key = Str (field this), gte = Num lo, lte = Num hi,
                        gt = Undefined, lt = Undefined\<rparr>]) \<and>
   (isl (fst (withinRadius this c r s)) \<longleftrightarrow> js_le r (Fin 0)) \<and>
   (js_le r (Fin 0) \<longrightarrow> snd (withinRadius this c r s) = s) \<and>
   (\<not> js_le r (Fin 0) \<longrightarrow>
      accumulated (snd (withinRadius this c r s)) (builder this) =
        accumulated s (builder this) @
          [GeoRadiusFilter \<lparr>radius_key = Str (field this), center = Some c, radius = Num r\<rparr>]) \<and>
   (isl (fst (inRange this (Fin x) (Fin y) s)) \<longleftrightarrow> y < x) \<and>
   (isl (fst (withinRadius this c (Fin x) s)) \<longleftrightarrow> x \<le> 0)"
  by (simp add: inRange_def withinRadius_def accumulated_def conditions_of_def addCondition_def push_def)

theorem eager_checks_witness:
  "fst (inRange (FilterBuilder_where 0 ''price'') (Fin 200) (Fin 100) (snd (new_FilterBuilder empty_store))) =
     Inl (FilterValidationError ''Range minimum cannot be greater than maximum'' (Some ''range'')
            (Some (Str ''price''))) \<and>
   accumulated (snd (inRange (FilterBuilder_where 0 ''price'') (Fin 200) (Fin 100)
       (snd (new_FilterBuilder empty_store)))) 0 = [] \<and>
   accumulated (snd (inRange (FilterBuilder_where 0 ''price'') (Fin 100) (Fin 200)
       (snd (new_FilterBuilder empty_store)))) 0 =
     [RangeFilter \<lparr>range_key = Str ''price'', gte = Num (Fin 100), lte = Num (Fin 200),
                    gt = Undefined, lt = Undefined\<rparr>] \<and>
   fst (withinRadius (FilterBuilder_where 0 ''location'') \<lparr>lon = Num (Fin 0), lat = Num (Fin 0)\<rparr>
          (Fin (- 100)) (snd (new_FilterBuilder empty_store))) =
     Inl (FilterValidationError ''Radius must be positive'' (Some ''geo_radius'')
            (Some (Str ''location''))) \<and>
   accumulated (snd (withinRadius (FilterBuilder_where 0 ''location'')
       \<lparr>lon = Num (Fin 0), lat = Num (Fin 0)\<rparr> (Fin (- 100)) (snd (new_FilterBuilder empty_store)))) 0 = [] \<and>
   accumulated (snd (withinRadius (FilterBuilder_where 0 ''location'')
       \<lparr>lon = Num (Fin 0), lat = Num (Fin 0)\<rparr> (Fin 1000) (snd (new_FilterBuilder empty_store)))) 0 =
     [GeoRadiusFilter \<lparr>radius_key = Str ''location'',
        center = Some \<lparr>lon = Num (Fin 0), lat = Num (Fin 0)\<rparr>, radius = Num (Fin 1000)\<rparr>]"
  using eager_checks [of "FilterBuilder_where 0 ''price''" "Fin 200" "Fin 100"
      "snd (new_FilterBuilder empty_store)" "\<lparr>lon = Num (Fin 0), lat = Num (Fin 0)\<rparr>" "Fin (- 100)" 0 0]
    eager_checks [of "FilterBuilder_where 0 ''price''" "Fin 100" "Fin 200"
      "snd (new_FilterBuilder empty_store)" "\<lparr>lon = Num (Fin 0), lat = Num (Fin 0)\<rparr>" "Fin 1000" 0 0]
  by (simp add: store_ops FilterBuilder_where_def inRange_def withinRadius_def)

subsection \<open>Validation\<close>

lemma validate_each_first_invalid:
  "\<forall>x\<in>set pre. validateFilterCondition (Some x) = Inr () \<Longrightarrow>
   validateFilterCondition (Some c) = Inl e \<Longrightarrow>
   validate_each (pre @ c # post) = Inl e"
  by (induction pre) simp_all

lemma validate_each_all_valid:
  "\<forall>x\<in>set cs. validateFilterCondition (Some x) = Inr () \<Longrightarrow> validate_each cs = Inr ()"
  by (induction cs) simp_all

lemma validate_cases:
  "validate this s =
     (if accumulated s this = []
      then Inl (FilterValidationError ''Filter must have at least one condition'' None None)
      else validate_each (accumulated s this))"
  by (simp add: validate_def accumulated_def conditions_of_def Let_def)

text \<open>
  Claim C9. \<^verbatim>\<open>validate()\<close> throws on a builder without conditions; otherwise it validates
  the conditions in insertion order and throws the error of the first invalid one, whatever
  follows it, and returns when all are valid. \<^verbatim>\<open>build()\<close> does not validate: it returns a
  filter whenever there is a condition, and a builder whose one condition is a match with an
  empty key builds that match, while \<^verbatim>\<open>validate()\<close> throws on it.
\<close>

theorem validate_fail_fast_and_opt_in:
  "(accumulated s this = [] \<longrightarrow>
      validate this s = Inl (FilterValidationError ''Filter must have at least one condition'' None None)) \<and>
   (accumulated s this = pre @ c # post \<and>
    (\<forall>x\<in>set pre. validateFilterCondition (Some x) = Inr ()) \<and>
    validateFilterCondition (Some c) = Inl e \<longrightarrow>
      validate this s = Inl e) \<and>
   (accumulated s this \<noteq> [] \<and>
    (\<forall>x\<in>set (accumulated s this). validateFilterCondition (Some x) = Inr ()) \<longrightarrow>
      validate this s = Inr ()) \<and>
   (accumulated s this \<noteq> [] \<longrightarrow> build this s \<noteq> None) \<and>
   (accumulated s this = [MatchFilter \<lparr>match_key = Str [], match_value = v\<rparr>] \<longrightarrow>
      build this s = Some (MatchFilter \<lparr>match_key = Str [], match_value = v\<rparr>) \<and>
      validate this s = Inl (FilterValidationError ''Match filter must have a valid key'' (Some ''match'') None))"
proof (intro conjI impI)
  assume "accumulated s this = []"
  then show "validate this s = Inl (FilterValidationError ''Filter must have at least one condition'' None None)"
    by (simp add: validate_cases)
next
  assume "accumulated s this = pre @ c # post \<and>
    (\<forall>x\<in>set pre. validateFilterCondition (Some x) = Inr ()) \<and>
    validateFilterCondition (Some c) = Inl e"
  then show "validate this s = Inl e"
    by (simp add: validate_cases validate_each_first_invalid)
next
  assume "accumulated s this \<noteq> [] \<and>
    (\<forall>x\<in>set (accumulated s this). validateFilterCondition (Some x) = Inr ())"
  then show "validate this s = Inr ()"
    by (simp add: validate_cases validate_each_all_valid)
next
  assume "accumulated s this \<noteq> []"
  then show "build this s \<noteq> None"
    by (simp add: build_cases split: list.splits)
next
  assume one: "accumulated s this = [MatchFilter \<lparr>match_key = Str [], match_value = v\<rparr>]"
  then show "build this s = Some (MatchFilter \<lparr>match_key = Str [], match_value = v\<rparr>)"
    by (simp add: build_cases)
  from one show "validate this s = Inl (FilterValidationError ''Match filter must have a valid key'' (Some ''match'') None)"
    by (simp add: validate_cases validateFilterCondition_def)
qed

theorem validate_fail_fast_and_opt_in_witness:
  "validate 0 (snd (new_FilterBuilder empty_store)) =
     Inl (FilterValidationError ''Filter must have at least one condition'' None None) \<and>
   validate 0 (addCondition 0 (RangeFilter \<lparr>range_key = Str [], gte = Undefined, lte = Undefined, gt = Undefined, lt = Undefined\<rparr>)
       (addCondition 0 match_empty_key (addCondition 0 match_a (snd (new_FilterBuilder empty_store))))) =
     Inl (FilterValidationError ''Match filter must have a valid key'' (Some ''match'') None) \<and>
   validate 0 (addCondition 0 match_b (addCondition 0 match_a (snd (new_FilterBuilder empty_store)))) = Inr () \<and>
   build 0 (addCondition 0 match_empty_key (snd (new_FilterBuilder empty_store))) = Some match_empty_key \<and>
   validate 0 (addCondition 0 match_empty_key (snd (new_FilterBuilder empty_store))) =
     Inl (FilterValidationError ''Match filter must have a valid key'' (Some ''match'') None)"
  using validate_fail_fast_and_opt_in [of "snd (new_FilterBuilder empty_store)" 0 "[]" match_a "[]" undefined undefined]
    validate_fail_fast_and_opt_in [of "addCondition 0 (RangeFilter \<lparr>range_key = Str [], gte = Undefined, lte = Undefined, gt = Undefined, lt = Undefined\<rparr>)
       (addCondition 0 match_empty_key (addCondition 0 match_a (snd (new_FilterBuilder empty_store))))" 0
       "[match_a]" match_empty_key
       "[RangeFilter \<lparr>range_key = Str [], gte = Undefined, lte = Undefined, gt = Undefined, lt = Undefined\<rparr>]"
       "FilterValidationError ''Match filter must have a valid key'' (Some ''match'') None" undefined]
    validate_fail_fast_and_opt_in [of "addCondition 0 match_b (addCondition 0 match_a (snd (new_FilterBuilder empty_store)))" 0 "[]" match_a "[]" undefined undefined]
    validate_fail_fast_and_opt_in [of "addCondition 0 match_empty_key (snd (new_FilterBuilder empty_store))" 0 "[]" match_a "[]" undefined "Str ''NVDA''"]
  by (simp add: store_ops match_a_def match_b_def match_empty_key_def validateFilterCondition_def)

text \<open>
  Claim C10. The validator returns normally on every filter that carries none of the four leaf
  tags, that is on every composite, whatever the arrays of the store hold; so
  \<^verbatim>\<open>validate()\<close> accepts a builder whose conditions are all composites, and in
  particular a new builder after \<^verbatim>\<open>where(k).notEquals(v)\<close> for any \<open>k\<close> and \<open>v\<close>.
\<close>

theorem composites_pass_validation:
  "(\<not> has_leaf_tag c \<longrightarrow> validateFilterCondition (Some c) = Inr ()) \<and>
   (accumulated s this \<noteq> [] \<and> (\<forall>x\<in>set (accumulated s this). \<not> has_leaf_tag x) \<longrightarrow>
      validate this s = Inr ()) \<and>
   validate (fst (new_FilterBuilder s0))
     (notEquals (FilterBuilder_where (fst (new_FilterBuilder s0)) k) v (snd (new_FilterBuilder s0))) = Inr ()"
proof (intro conjI impI)
  have leafless: "validateFilterCondition (Some x) = Inr ()" if "\<not> has_leaf_tag x" for x
    using that by (cases x) (simp_all add: validateFilterCondition_def)
  assume "\<not> has_leaf_tag c"
  then show "validateFilterCondition (Some c) = Inr ()" by (rule leafless)
next
  have leafless: "validateFilterCondition (Some x) = Inr ()" if "\<not> has_leaf_tag x" for x
    using that by (cases x) (simp_all add: validateFilterCondition_def)
  assume "accumulated s this \<noteq> [] \<and> (\<forall>x\<in>set (accumulated s this). \<not> has_leaf_tag x)"
  then show "validate this s = Inr ()"
    by (simp add: validate_cases validate_each_all_valid leafless)
next
  show "validate (fst (new_FilterBuilder s0))
     (notEquals (FilterBuilder_where (fst (new_FilterBuilder s0)) k) v (snd (new_FilterBuilder s0))) = Inr ()"
    by (simp add: validate_def notEquals_def FilterBuilder_where_def store_ops validateFilterCondition_def)
qed

theorem composites_pass_validation_witness:
  "validateFilterCondition (Some (NotFilter 7)) = Inr () \<and>
   validateFilterCondition (Some (MatchFilter \<lparr>match_key = Str [], match_value = Undefined\<rparr>)) =
     Inl (FilterValidationError ''Match filter must have a valid key'' (Some ''match'') None) \<and>
   accumulated (notEquals (FilterBuilder_where 0 []) Undefined (snd (new_FilterBuilder empty_store))) 0 =
     [NotFilter 1] \<and>
   arrays (notEquals (FilterBuilder_where 0 []) Undefined (snd (new_FilterBuilder empty_store))) 1 =
     [MatchFilter \<lparr>match_key = Str [], match_value = Undefined\<rparr>] \<and>
   validate 0 (notEquals (FilterBuilder_where 0 []) Undefined (snd (new_FilterBuilder empty_store))) = Inr () \<and>
   isl (validate 1 malformed_children) \<and>
   accumulated (andAll 0 [1] malformed_children) 0 = [AndFilter 1] \<and>
   validate 0 (andAll 0 [1] malformed_children) = Inr () \<and>
   accumulated (orAny 0 [1] malformed_children) 0 = [OrFilter 2] \<and>
   validate 0 (orAny 0 [1] malformed_children) = Inr () \<and>
   validate 0 (addCondition 0 (OrFilter 1) malformed_children) = Inr ()"
  using composites_pass_validation [of "NotFilter 7"
      "notEquals (FilterBuilder_where 0 []) Undefined (snd (new_FilterBuilder empty_store))" 0 empty_store "[]" Undefined]
    composites_pass_validation [of "NotFilter 7" "andAll 0 [1] malformed_children" 0 empty_store "[]" Undefined]
    composites_pass_validation [of "NotFilter 7" "orAny 0 [1] malformed_children" 0 empty_store "[]" Undefined]
    composites_pass_validation [of "NotFilter 7" "addCondition 0 (OrFilter 1) malformed_children" 0 empty_store "[]" Undefined]
  by (simp add: store_ops notEquals_def FilterBuilder_where_def validateFilterCondition_def
      malformed_children_def match_empty_key_def build_def orAny_def Let_def validate_def)

text \<open>What the validator accepts as a radius condition: a key that is a non-empty string, a
  center with finite coordinates in range, and a radius that is a number not \<^verbatim>\<open><= 0\<close>.\<close>

lemma js_le_zero: "js_le r (Fin 0) \<longleftrightarrow> r = NegInf \<or> (\<exists>x. r = Fin x \<and> x \<le> 0)"
  by (cases r) (auto simp: js_le_def)

lemma validateGeoPoint_accepts:
  "validateGeoPoint p ctx = Inr () \<longleftrightarrow>
     (\<exists>la lo. p = Some \<lparr>lon = Num (Fin lo), lat = Num (Fin la)\<rparr> \<and>
        - 90 \<le> la \<and> la \<le> 90 \<and> - 180 \<le> lo \<and> lo \<le> 180)"
proof (cases p)
  case None
  then show ?thesis by (simp add: validateGeoPoint_def)
next
  case (Some q)
  obtain lo la where q: "q = \<lparr>lon = lo, lat = la\<rparr>" by (cases q) simp
  show ?thesis
  proof (cases la)
    case (Num n)
    note la = this
    show ?thesis
    proof (cases lo)
      case (Num m)
      show ?thesis
        using Some q la Num
        by (cases n; cases m) (auto simp: validateGeoPoint_def js_gt_def)
    qed (use Some q la in \<open>auto simp: validateGeoPoint_def\<close>)
  qed (use Some q in \<open>auto simp: validateGeoPoint_def\<close>)
qed

lemma string_key: "truthy k \<and> typeof k = ''string'' \<longleftrightarrow> (\<exists>t. k = Str t \<and> t \<noteq> [])"
  by (cases k) auto

lemma positive_radius:
  "typeof r = ''number'' \<and> \<not> js_le (number_of r) (Fin 0) \<longleftrightarrow>
     r = Num NaN \<or> r = Num PosInf \<or> (\<exists>x. r = Num (Fin x) \<and> 0 < x)"
proof (cases r)
  case (Num n)
  then show ?thesis by (cases n) (auto simp: js_le_zero)
qed simp_all

lemma geo_radius_accepted_iff:
  "validateFilterCondition (Some (GeoRadiusFilter g)) = Inr () \<longleftrightarrow>
     (\<exists>t. radius_key g = Str t \<and> t \<noteq> []) \<and>
     (\<exists>la lo. center g = Some \<lparr>lon = Num (Fin lo), lat = Num (Fin la)\<rparr> \<and>
        - 90 \<le> la \<and> la \<le> 90 \<and> - 180 \<le> lo \<and> lo \<le> 180) \<and>
     (radius g = Num NaN \<or> radius g = Num PosInf \<or> (\<exists>x. radius g = Num (Fin x) \<and> 0 < x))"
proof -
  have "validateFilterCondition (Some (GeoRadiusFilter g)) = Inr () \<longleftrightarrow>
      (truthy (radius_key g) \<and> typeof (radius_key g) = ''string'') \<and>
      validateGeoPoint (center g) ''center'' = Inr () \<and>
      (typeof (radius g) = ''number'' \<and> \<not> js_le (number_of (radius g)) (Fin 0))"
    by (auto simp: validateFilterCondition_def split: sum.splits)
  then show ?thesis
    by (simp only: string_key validateGeoPoint_accepts positive_radius)
qed

text \<open>
  Claim C6. The validator is to reject a radius that is not a positive finite number. The code
  tests \<^verbatim>\<open>typeof geo.radius !== 'number' || geo.radius <= 0\<close> only: \<^verbatim>\<open>NaN\<close> and
  \<^verbatim>\<open>Infinity\<close> pass, against the claim (and \<^verbatim>\<open>NaN\<close> against the message of the error,
  which asks for a positive number; the range bounds and the coordinates next to it are tested
  with \<^verbatim>\<open>isFinite\<close>).
\<close>

theorem geo_radius_not_finite_accepted:
  "validateFilterCondition (Some (GeoRadiusFilter \<lparr>radius_key = Str ''loc'',
      center = Some \<lparr>lon = Num (Fin 0), lat = Num (Fin 0)\<rparr>, radius = Num NaN\<rparr>)) = Inr () \<and>
   validateFilterCondition (Some (GeoRadiusFilter \<lparr>radius_key = Str ''loc'',
      center = Some \<lparr>lon = Num (Fin 0), lat = Num (Fin 0)\<rparr>, radius = Num PosInf\<rparr>)) = Inr ()"
  by (simp add: validateFilterCondition_def validateGeoPoint_def js_le_def js_gt_def)

theorem geo_radius_not_finite_accepted_witness:
  "\<not> isl (validateFilterCondition (Some (GeoRadiusFilter \<lparr>radius_key = Str ''loc'',
      center = Some \<lparr>lon = Num (Fin 0), lat = Num (Fin 0)\<rparr>, radius = Num NaN\<rparr>))) \<and>
   \<not> isl (validateFilterCondition (Some (GeoRadiusFilter \<lparr>radius_key = Str ''loc'',
      center = Some \<lparr>lon = Num (Fin 0), lat = Num (Fin 0)\<rparr>, radius = Num PosInf\<rparr>)))"
  using geo_radius_not_finite_accepted by simp

subsection \<open>\<^verbatim>\<open>andAll\<close> and \<^verbatim>\<open>orAny\<close>\<close>

lemma andAll_collect:
  "andAll this bs s = orAny_collect (conditions_of s this) bs s"
proof (induction bs arbitrary: s)
  case Nil
  show ?case by simp
next
  case (Cons b bs)
  show ?case
    by (cases "build b s") (simp_all add: Cons.IH conditions_of_def)
qed

lemma collect_frame:
  "builders (orAny_collect target bs s) = builders s \<and>
   next_array (orAny_collect target bs s) = next_array s \<and>
   next_builder (orAny_collect target bs s) = next_builder s \<and>
   (\<forall>a. a \<noteq> target \<longrightarrow> arrays (orAny_collect target bs s) a = arrays s a)"
proof (induction bs arbitrary: s)
  case Nil
  show ?case by simp
next
  case (Cons b bs)
  show ?case
    by (cases "build b s") (simp_all add: Cons.IH)
qed

lemma collect_results:
  "arrays (orAny_collect target bs s) target =
     arrays s target @ List.map_filter (\<lambda>r. r) (build_results target bs s)"
proof (induction bs arbitrary: s)
  case Nil
  show ?case by (simp add: List.map_filter_simps)
next
  case (Cons b bs)
  show ?case
    by (cases "build b s") (simp_all add: Cons.IH List.map_filter_simps)
qed

lemma length_build_results [simp]: "length (build_results target bs s) = length bs"
  by (induction bs arbitrary: s) simp_all

lemma build_results_others:
  "\<forall>x\<in>set bs. conditions_of s x \<noteq> target \<Longrightarrow>
   build_results target bs s = map (\<lambda>x. build x s) bs"
proof (induction bs arbitrary: s)
  case Nil
  show ?case by simp
next
  case (Cons b bs)
  show ?case
  proof (cases "build b s")
    case None
    then show ?thesis using Cons by simp
  next
    case (Some f)
    have "build_results target bs (push target f s) = map (\<lambda>x. build x (push target f s)) bs"
      using Cons.prems by (intro Cons.IH) simp
    also have "\<dots> = map (\<lambda>x. build x s) bs"
      using Cons.prems by (intro map_cong refl build_push_other) simp
    finally show ?thesis using Some by simp
  qed
qed

lemma map_filter_map: "List.map_filter (\<lambda>r. r) (map f xs) = List.map_filter f xs"
  by (induction xs) (simp_all add: List.map_filter_simps split: option.splits)

lemma orAny_unfold:
  "orAny this bs s =
     (let s2 = orAny_collect (next_array s) bs (snd (new_array [] s)) in
      if arrays s2 (next_array s) \<noteq> []
      then push (conditions_of s this) (OrFilter (next_array s)) s2 else s2)"
  using collect_frame [of "next_array s" bs "snd (new_array [] s)"]
  by (simp add: orAny_def Let_def split_beta conditions_of_def)

text \<open>
  Claim C8. \<^verbatim>\<open>andAll\<close> appends to the parent's conditions one entry for each argument
  builder whose \<^verbatim>\<open>build()\<close> gives a filter, each as a child of its own; an argument whose
  \<^verbatim>\<open>build()\<close> gives \<^verbatim>\<open>null\<close> adds nothing. For arguments other than the parent itself
  the entries are the filters the arguments build in the store of the call. \<^verbatim>\<open>orAny\<close>
  collects the filters its arguments build into a fresh array and, exactly when there is one,
  appends the single node \<^verbatim>\<open>{should: [...]}\<close> over that array.
\<close>

theorem andAll_orAny:
  "accumulated (andAll this bs s) this =
     accumulated s this @ List.map_filter (\<lambda>r. r) (build_results (conditions_of s this) bs s) \<and>
   length (build_results (conditions_of s this) bs s) = length bs \<and>
   ((\<forall>x\<in>set bs. conditions_of s x \<noteq> conditions_of s this) \<longrightarrow>
      accumulated (andAll this bs s) this =
        accumulated s this @ List.map_filter (\<lambda>x. build x s) bs) \<and>
   (conditions_of s this < next_array s \<and> (\<forall>x\<in>set bs. conditions_of s x < next_array s) \<longrightarrow>
      arrays (orAny this bs s) (next_array s) = List.map_filter (\<lambda>x. build x s) bs \<and>
      accumulated (orAny this bs s) this =
        accumulated s this @
          (if List.map_filter (\<lambda>x. build x s) bs = [] then [] else [OrFilter (next_array s)]))"
proof (intro conjI impI)
  have cond: "conditions_of (andAll this bs s) this = conditions_of s this"
    using collect_frame [of "conditions_of s this" bs s]
    by (simp add: andAll_collect conditions_of_def)
  show general: "accumulated (andAll this bs s) this =
     accumulated s this @ List.map_filter (\<lambda>r. r) (build_results (conditions_of s this) bs s)"
    using collect_results [of "conditions_of s this" bs s] cond
    by (simp add: accumulated_def andAll_collect)
  show "length (build_results (conditions_of s this) bs s) = length bs"
    by simp
  show "accumulated (andAll this bs s) this =
        accumulated s this @ List.map_filter (\<lambda>x. build x s) bs"
    if "\<forall>x\<in>set bs. conditions_of s x \<noteq> conditions_of s this"
    using general build_results_others [OF that] by (simp add: map_filter_map)
next
  assume alloc: "conditions_of s this < next_array s \<and> (\<forall>x\<in>set bs. conditions_of s x < next_array s)"
  let ?a = "next_array s"
  let ?s1 = "snd (new_array [] s)"
  let ?s2 = "orAny_collect ?a bs ?s1"
  let ?collected = "List.map_filter (\<lambda>x. build x s) bs"
  have others: "\<forall>x\<in>set bs. conditions_of ?s1 x \<noteq> ?a"
    using alloc by (auto simp: conditions_of_def)
  have "build_results ?a bs ?s1 = map (\<lambda>x. build x ?s1) bs"
    using others by (rule build_results_others)
  also have "\<dots> = map (\<lambda>x. build x s) bs"
    using alloc by (intro map_cong refl build_new_array_other) auto
  finally have res: "build_results ?a bs ?s1 = map (\<lambda>x. build x s) bs" .
  have coll: "arrays ?s2 ?a = ?collected"
    using collect_results [of ?a bs ?s1] res by (simp add: map_filter_map)
  have frame: "arrays ?s2 (conditions_of s this) = arrays s (conditions_of s this)"
    "conditions_of ?s2 this = conditions_of s this"
    using collect_frame [of ?a bs ?s1] alloc by (simp_all add: conditions_of_def)
  have ne: "conditions_of s this \<noteq> ?a"
    using alloc by simp
  show "arrays (orAny this bs s) ?a = ?collected"
    using coll ne by (simp add: orAny_unfold Let_def)
  show "accumulated (orAny this bs s) this =
        accumulated s this @ (if ?collected = [] then [] else [OrFilter ?a])"
    using coll frame ne
    by (simp add: orAny_unfold Let_def accumulated_def)
qed

theorem andAll_orAny_witness:
  "accumulated (andAll 0 [1, 2, 3] four_builders) 0 = [AndFilter 1, match_a] \<and>
   arrays (orAny 0 [1, 2, 3] four_builders) 4 = [AndFilter 1, match_a] \<and>
   accumulated (orAny 0 [1, 2, 3] four_builders) 0 = [OrFilter 4] \<and>
   accumulated (orAny 0 [2] four_builders) 0 = []"
  using andAll_orAny [of 0 "[1, 2, 3]" four_builders] andAll_orAny [of 0 "[2]" four_builders]
  by (simp add: four_builders_def store_ops build_def List.map_filter_simps orAny_def Let_def numeral_2_eq_2 numeral_3_eq_3 eval_nat_numeral)

subsection \<open>The value of a filter and the walk of \<^verbatim>\<open>JSON.stringify\<close>\<close>

declare filter_value.simps [simp del] JSON_walk.simps [simp del]

lemma filter_value_leaf [simp]:
  "has_leaf_tag f \<Longrightarrow> filter_value n s f = Some (leaf_value f)"
  by (simp add: filter_value.simps)

lemma filter_value_0 [simp]:
  "\<not> has_leaf_tag f \<Longrightarrow> filter_value 0 s f = None"
  by (simp add: filter_value.simps)

lemma filter_value_Suc [simp]:
  "\<not> has_leaf_tag f \<Longrightarrow>
   filter_value (Suc n) s f =
     map_option (composite_value (tag_of f)) (those (map (filter_value n s) (arrays s (array_of f))))"
  by (simp add: filter_value.simps)

lemma JSON_walk_leaf [simp]:
  "has_leaf_tag f \<Longrightarrow> JSON_walk n stack s f = Some (Inr (leaf_value f))"
  by (simp add: JSON_walk.simps)

lemma JSON_walk_0 [simp]:
  "\<not> has_leaf_tag f \<Longrightarrow> JSON_walk 0 stack s f = None"
  by (simp add: JSON_walk.simps)

lemma JSON_walk_Suc [simp]:
  "\<not> has_leaf_tag f \<Longrightarrow>
   JSON_walk (Suc n) stack s f =
     (if array_of f \<in> set stack then Some (Inl TypeError)
      else (case all_values (map (JSON_walk n (array_of f # stack) s) (arrays s (array_of f))) of
              None \<Rightarrow> None
            | Some (Inl e) \<Rightarrow> Some (Inl e)
            | Some (Inr vs) \<Rightarrow> Some (Inr (composite_value (tag_of f) vs))))"
  by (simp add: JSON_walk.simps)

lemma those_map_mono:
  "those (map f xs) = Some ys \<Longrightarrow> (\<And>x y. x \<in> set xs \<Longrightarrow> f x = Some y \<Longrightarrow> g x = Some y) \<Longrightarrow>
   those (map g xs) = Some ys"
proof (induction xs arbitrary: ys)
  case Nil
  then show ?case by simp
next
  case (Cons x xs)
  from Cons.prems(1) obtain y zs where y: "f x = Some y" and zs: "those (map f xs) = Some zs"
    and ys: "ys = y # zs"
    by (auto split: option.splits)
  have "g x = Some y" using Cons.prems(2) y by simp
  moreover have "those (map g xs) = Some zs"
    using zs Cons.prems(2) by (intro Cons.IH) auto
  ultimately show ?case using ys by simp
qed


lemma filter_value_step:
  "filter_value n s f = Some v \<Longrightarrow> filter_value (Suc n) s f = Some v"
proof (induction n arbitrary: f v)
  case 0
  then show ?case by (cases "has_leaf_tag f") simp_all
next
  case (Suc n)
  show ?case
  proof (cases "has_leaf_tag f")
    case True
    then show ?thesis using Suc.prems by simp
  next
    case False
    with Suc.prems obtain vs where
      vs: "those (map (filter_value n s) (arrays s (array_of f))) = Some vs"
      and v: "v = composite_value (tag_of f) vs"
      by auto
    have "those (map (filter_value (Suc n) s) (arrays s (array_of f))) = Some vs"
      using vs by (rule those_map_mono) (rule Suc.IH)
    then show ?thesis using False v by simp
  qed
qed

lemma filter_value_mono:
  "n \<le> m \<Longrightarrow> filter_value n s f = Some v \<Longrightarrow> filter_value m s f = Some v"
  by (induction m rule: dec_induct) (simp_all add: filter_value_step)

lemma filter_value_unique:
  assumes "filter_value n s f = Some v" and "filter_value m s f = Some w"
  shows "v = w"
proof -
  have "filter_value (max n m) s f = Some v"
    using assms(1) by (rule filter_value_mono [OF max.cobounded1])
  moreover have "filter_value (max n m) s f = Some w"
    using assms(2) by (rule filter_value_mono [OF max.cobounded2])
  ultimately show ?thesis by simp
qed











lemma filter_value_cong:
  "arrays s' = arrays s \<Longrightarrow> filter_value n s' f = filter_value n s f"
proof (induction n arbitrary: f)
  case 0
  show ?case by (cases "has_leaf_tag f") simp_all
next
  case (Suc n)
  have "filter_value n s' = filter_value n s"
    by (rule ext) (rule Suc.IH [OF Suc.prems])
  then show ?case using Suc.prems by (cases "has_leaf_tag f") simp_all
qed

subsection \<open>A returned filter and later calls on its builder\<close>

lemma set_logicalOperator_frame [simp]:
  "arrays (set_logicalOperator this m s) = arrays s"
  "next_array (set_logicalOperator this m s) = next_array s"
  "conditions_of (set_logicalOperator this m s) b = conditions_of s b"
  by (simp_all add: set_logicalOperator_def conditions_of_def)

lemma andAll_frame:
  "builders (andAll this bs s) = builders s"
  "next_array (andAll this bs s) = next_array s"
  "a \<noteq> conditions_of s this \<Longrightarrow> arrays (andAll this bs s) a = arrays s a"
  "arrays (andAll this bs s) (conditions_of s this) =
     arrays s (conditions_of s this) @
       List.map_filter (\<lambda>r. r) (build_results (conditions_of s this) bs s)"
  using collect_frame [of "conditions_of s this" bs s] collect_results [of "conditions_of s this" bs s]
  by (simp_all add: andAll_collect)

lemma orAny_frame:
  "builders (orAny this bs s) = builders s"
  "next_array (orAny this bs s) = Suc (next_array s)"
  "a \<noteq> conditions_of s this \<Longrightarrow> a \<noteq> next_array s \<Longrightarrow> arrays (orAny this bs s) a = arrays s a"
  "conditions_of s this \<noteq> next_array s \<Longrightarrow>
     arrays (orAny this bs s) (conditions_of s this) =
       arrays s (conditions_of s this) @
         (if arrays (orAny this bs s) (next_array s) = [] then [] else [OrFilter (next_array s)])"
  using collect_frame [of "next_array s" bs "snd (new_array [] s)"]
  by (simp_all add: orAny_unfold Let_def)

lemma later_conditions [simp]: "conditions_of (later this c s) b = conditions_of s b"
  by (cases c)
    (simp_all add: FilterBuilder_and_def FilterBuilder_or_def FilterBuilder_not_def
      addCondition_def equals_def FilterBuilder_where_def andAll_frame orAny_frame
      conditions_of_def [of "andAll this _ s"] conditions_of_def [of "orAny this _ s"]
      conditions_of_def [of s])

lemma later_next_array: "next_array s \<le> next_array (later this c s)"
  by (cases c)
    (simp_all add: FilterBuilder_and_def FilterBuilder_or_def FilterBuilder_not_def
      addCondition_def equals_def FilterBuilder_where_def andAll_frame orAny_frame)

lemma later_other_arrays:
  "a \<noteq> conditions_of s this \<Longrightarrow> a < next_array s \<Longrightarrow> arrays (later this c s) a = arrays s a"
  by (cases c)
    (simp_all add: FilterBuilder_and_def FilterBuilder_or_def FilterBuilder_not_def
      addCondition_def equals_def FilterBuilder_where_def andAll_frame orAny_frame
      conditions_of_def [of s])

lemma later_appends:
  assumes "conditions_of s this < next_array s"
  shows "\<exists>ys. accumulated (later this c s) this = accumulated s this @ ys"
proof -
  have "\<exists>ys. arrays (later this c s) (conditions_of s this) = arrays s (conditions_of s this) @ ys"
  proof (cases c)
    case (Later_addCondition x)
    then show ?thesis by (simp add: addCondition_def conditions_of_def)
  next
    case (Later_equals k v)
    then show ?thesis
      by (simp add: equals_def FilterBuilder_where_def addCondition_def conditions_of_def)
  next
    case (Later_andAll bs)
    then show ?thesis using andAll_frame(4) [of this bs s] by auto
  next
    case (Later_orAny bs)
    then show ?thesis using orAny_frame(4) [of s this bs] assms by auto
  qed (simp_all add: FilterBuilder_and_def FilterBuilder_or_def FilterBuilder_not_def)
  then show ?thesis by (simp add: accumulated_def)
qed

lemma laters_frame:
  "conditions_of s this < next_array s \<Longrightarrow>
   conditions_of (laters this cs s) this = conditions_of s this \<and>
   next_array s \<le> next_array (laters this cs s) \<and>
   (\<exists>ys. accumulated (laters this cs s) this = accumulated s this @ ys) \<and>
   (a \<noteq> conditions_of s this \<and> a < next_array s \<longrightarrow> arrays (laters this cs s) a = arrays s a)"
proof (induction cs arbitrary: s)
  case Nil
  show ?case by simp
next
  case (Cons c cs)
  let ?s = "later this c s"
  have alloc: "conditions_of ?s this < next_array ?s"
    using Cons.prems later_next_array [of s this c] by simp
  note IH = Cons.IH [OF alloc]
  obtain ys where ys: "accumulated ?s this = accumulated s this @ ys"
    using later_appends [OF Cons.prems] by blast
  from IH obtain zs where zs: "accumulated (laters this cs ?s) this = accumulated ?s this @ zs"
    by blast
  have "arrays (laters this cs ?s) a = arrays s a"
    if "a \<noteq> conditions_of s this" "a < next_array s"
  proof -
    have "a < next_array ?s" using that(2) later_next_array [of s this c] by simp
    then have "arrays (laters this cs ?s) a = arrays ?s a" using IH that(1) by simp
    then show ?thesis using later_other_arrays [OF that] by simp
  qed
  then show ?case
    using IH ys zs later_next_array [of s this c] by auto
qed

lemma built_composite_children:
  assumes "2 \<le> length (accumulated s this)" and "build this s = Some g"
    and "conditions_of s' this = conditions_of s this"
  shows "children s' g = accumulated s' this"
proof -
  have "g = composite (logicalOperator (builders s this)) (conditions_of s this)"
    using assms(1,2) by (auto simp: build_cases split: list.splits)
  then show ?thesis
    using assms(3) by (cases "logicalOperator (builders s this)") (simp_all add: accumulated_def)
qed

lemma mode_switch_or_read_arrays:
  "mode_switch_or_read c \<Longrightarrow> arrays (later this c s) = arrays s"
  by (cases c) (simp_all add: FilterBuilder_and_def FilterBuilder_or_def FilterBuilder_not_def)

text \<open>
  Claim C2, as stated, fails: \<^verbatim>\<open>build()\<close> on a builder with two conditions returns
  \<^verbatim>\<open>{must: this.conditions}\<close>, and a later \<^verbatim>\<open>where('c').equals(3)\<close> on the builder
  pushes onto that very array, so the value of the returned filter changes from two children to
  three.
\<close>

theorem returned_filter_mutated_counterexample:
  "build 0 two_conditions = Some (AndFilter 0) \<and>
   filter_value 1 two_conditions (AndFilter 0) =
     Some (VObject [(''must'', VArray
       [VObject [(''match'', VObject [(''key'', VString ''a''), (''value'', VNumber (Fin 1))])],
        VObject [(''match'', VObject [(''key'', VString ''b''), (''value'', VNumber (Fin 2))])]])]) \<and>
   filter_value 1 (equals (FilterBuilder_where 0 ''c'') (Num (Fin 3)) two_conditions) (AndFilter 0) =
     Some (VObject [(''must'', VArray
       [VObject [(''match'', VObject [(''key'', VString ''a''), (''value'', VNumber (Fin 1))])],
        VObject [(''match'', VObject [(''key'', VString ''b''), (''value'', VNumber (Fin 2))])],
        VObject [(''match'', VObject [(''key'', VString ''c''), (''value'', VNumber (Fin 3))])]])]) \<and>
   filter_value 1 (equals (FilterBuilder_where 0 ''c'') (Num (Fin 3)) two_conditions) (AndFilter 0) \<noteq>
     filter_value 1 two_conditions (AndFilter 0)"
  by (simp add: two_conditions_def equals_def FilterBuilder_where_def store_ops build_def
      composite_value_def)

text \<open>
  Claim C2, amended. A later \<^verbatim>\<open>and()\<close>, \<^verbatim>\<open>or()\<close>, \<^verbatim>\<open>not()\<close>, \<^verbatim>\<open>build()\<close> or
  \<^verbatim>\<open>validate()\<close> leaves the value of every filter as it was, and a leaf condition has the
  same value in every store. Any sequence of later calls on a builder only appends to the
  builder's own \<^verbatim>\<open>conditions\<close> array and changes no other array that exists. The composite
  that \<^verbatim>\<open>build()\<close> returns for two or more conditions has that array as its child list, not
  a copy: in every later store, and so after any sequence of later calls, the children of the
  returned filter are the conditions the builder holds then. In particular
  \<^verbatim>\<open>addCondition(x)\<close> appends \<open>x\<close> to them, \<^verbatim>\<open>where(k).equals(v)\<close> the match,
  \<^verbatim>\<open>andAll\<close> the filters its arguments build, and \<^verbatim>\<open>orAny\<close> its
  \<^verbatim>\<open>{should: [...]}\<close> node when it collects anything.
\<close>

theorem returned_composite_shares_conditions:
  "(mode_switch_or_read c \<longrightarrow> filter_value n (later this c s) f = filter_value n s f) \<and>
   (has_leaf_tag f \<longrightarrow> filter_value n s' f = filter_value n s f) \<and>
   (conditions_of s this < next_array s \<longrightarrow>
      (\<exists>ys. accumulated (laters this cs s) this = accumulated s this @ ys) \<and>
      (a \<noteq> conditions_of s this \<and> a < next_array s \<longrightarrow>
         arrays (laters this cs s) a = arrays s a)) \<and>
   (2 \<le> length (accumulated s this) \<and> build this s = Some g \<longrightarrow>
      children s g = accumulated s this \<and>
      (\<forall>t. conditions_of t this = conditions_of s this \<longrightarrow> children t g = accumulated t this) \<and>
      (conditions_of s this < next_array s \<longrightarrow>
         children (laters this cs s) g = accumulated (laters this cs s) this) \<and>
      children (later this (Later_addCondition x) s) g = children s g @ [x] \<and>
      children (later this (Later_equals k v) s) g =
        children s g @ [MatchFilter \<lparr>match_key = Str k, match_value = v\<rparr>] \<and>
      children (later this (Later_andAll bs) s) g =
        children s g @ List.map_filter (\<lambda>r. r) (build_results (conditions_of s this) bs s) \<and>
      (conditions_of s this < next_array s \<longrightarrow>
         children (later this (Later_orAny bs) s) g =
           children s g @
             (if arrays (later this (Later_orAny bs) s) (next_array s) = [] then []
              else [OrFilter (next_array s)])))"
proof (intro conjI impI allI)
  show "filter_value n (later this c s) f = filter_value n s f" if "mode_switch_or_read c"
    using that by (intro filter_value_cong mode_switch_or_read_arrays)
  show "filter_value n s' f = filter_value n s f" if "has_leaf_tag f"
    using that by simp
next
  assume alloc: "conditions_of s this < next_array s"
  show "\<exists>ys. accumulated (laters this cs s) this = accumulated s this @ ys"
    using laters_frame [OF alloc, of cs] by blast
  show "arrays (laters this cs s) a = arrays s a"
    if "a \<noteq> conditions_of s this \<and> a < next_array s"
    using laters_frame [OF alloc, of cs a] that by blast
next
  assume built: "2 \<le> length (accumulated s this) \<and> build this s = Some g"
  have shared: "children t g = accumulated t this"
    if "conditions_of t this = conditions_of s this" for t
    using built that by (intro built_composite_children [of s this g t]) simp_all
  show here: "children s g = accumulated s this"
    by (rule shared) simp
  show "children t g = accumulated t this"
    if "conditions_of t this = conditions_of s this" for t
    using that by (rule shared)
  show "children (laters this cs s) g = accumulated (laters this cs s) this"
    if "conditions_of s this < next_array s"
    using laters_frame [OF that, of cs] by (intro shared) simp
  have step: "children (later this d s) g = accumulated (later this d s) this" for d
    by (rule shared) simp
  show "children (later this (Later_addCondition x) s) g = children s g @ [x]"
    unfolding step here by (simp add: accumulated_def addCondition_def conditions_of_def)
  show "children (later this (Later_equals k v) s) g =
        children s g @ [MatchFilter \<lparr>match_key = Str k, match_value = v\<rparr>]"
    unfolding step here
    by (simp add: accumulated_def equals_def FilterBuilder_where_def addCondition_def conditions_of_def)
  show "children (later this (Later_andAll bs) s) g =
        children s g @ List.map_filter (\<lambda>r. r) (build_results (conditions_of s this) bs s)"
    unfolding step here
    using andAll_frame(4) [of this bs s] later_conditions [of this "Later_andAll bs" s this]
    by (simp add: accumulated_def)
  show "children (later this (Later_orAny bs) s) g =
           children s g @
             (if arrays (later this (Later_orAny bs) s) (next_array s) = [] then []
              else [OrFilter (next_array s)])"
    if "conditions_of s this < next_array s"
    unfolding step here
    using orAny_frame(4) [of s this bs] that later_conditions [of this "Later_orAny bs" s this]
    by (simp add: accumulated_def)
qed

text \<open>Builder 1 of \<open>four_builders\<close> holds two conditions; after its \<^verbatim>\<open>build()\<close> the
  calls \<^verbatim>\<open>or()\<close>, \<^verbatim>\<open>where('c').equals(3)\<close>, \<^verbatim>\<open>build()\<close>, \<^verbatim>\<open>orAny(b3, b2)\<close>
  and \<^verbatim>\<open>andAll(b3)\<close> leave the returned filter with five children, and the array of
  builder 3 as it was.\<close>

theorem returned_composite_shares_conditions_witness:
  "build 1 four_builders = Some (AndFilter 1) \<and>
   children four_builders (AndFilter 1) = [match_a, match_b] \<and>
   filter_value 1 (later 1 Later_or four_builders) (AndFilter 1) =
     filter_value 1 four_builders (AndFilter 1) \<and>
   filter_value 0 empty_store match_a = filter_value 0 four_builders match_a \<and>
   children
     (laters 1 [Later_or, Later_equals ''c'' (Num (Fin 3)), Later_build, Later_orAny [3, 2],
                Later_andAll [3]] four_builders) (AndFilter 1) =
     [match_a, match_b, MatchFilter \<lparr>match_key = Str ''c'', match_value = Num (Fin 3)\<rparr>,
      OrFilter 4, match_a] \<and>
   arrays
     (laters 1 [Later_or, Later_equals ''c'' (Num (Fin 3)), Later_build, Later_orAny [3, 2],
                Later_andAll [3]] four_builders) 3 = [match_a] \<and>
   children (later 1 (Later_addCondition match_a) four_builders) (AndFilter 1) =
     [match_a, match_b, match_a] \<and>
   children (later 1 (Later_andAll [3, 2]) four_builders) (AndFilter 1) =
     [match_a, match_b, match_a] \<and>
   children (later 1 (Later_orAny [3, 2]) four_builders) (AndFilter 1) =
     [match_a, match_b, OrFilter 4]"
  using returned_composite_shares_conditions
      [where c = Later_or and n = 1 and this = 1 and s = four_builders and f = "AndFilter 1"
         and s' = empty_store and a = 3 and g = "AndFilter 1" and x = match_a and k = "''c''"
         and v = "Num (Fin 3)" and bs = "[3, 2]"
         and cs = "[Later_or, Later_equals ''c'' (Num (Fin 3)), Later_build, Later_orAny [3, 2],
                Later_andAll [3]]"]
    returned_composite_shares_conditions
      [where c = Later_or and n = 0 and this = 1 and s = four_builders and f = match_a
         and s' = empty_store and a = 3 and g = "AndFilter 1" and x = match_a and k = "''c''"
         and v = "Num (Fin 3)" and bs = "[3, 2]" and cs = "[]"]
  by (simp add: four_builders_def store_ops build_def equals_def FilterBuilder_where_def
      orAny_def Let_def List.map_filter_simps match_a_def match_b_def eval_nat_numeral)

subsection \<open>\<^verbatim>\<open>serializeFilter\<close> and \<^verbatim>\<open>JSON.parse\<close>\<close>



lemma length_parse_members [simp]: "length (parse_members kjs) = length kjs"
  by (induction kjs) auto






text \<open>A filter that contains itself can be built: after \<^verbatim>\<open>b.andAll(b)\<close> on a builder
  with two conditions the builder's array holds \<^verbatim>\<open>{must: conditions}\<close> over itself, and
  \<^verbatim>\<open>serializeFilter\<close> throws on what \<^verbatim>\<open>build()\<close> returns.\<close>

lemma serializeFilter_circular:
  "build 0 (andAll 0 [0] two_conditions) = Some (AndFilter 0) \<and>
   children (andAll 0 [0] two_conditions) (AndFilter 0) =
     [MatchFilter \<lparr>match_key = Str ''a'', match_value = Num (Fin 1)\<rparr>,
      MatchFilter \<lparr>match_key = Str ''b'', match_value = Num (Fin 2)\<rparr>,
      AndFilter 0] \<and>
   serializeFilter 2 (andAll 0 [0] two_conditions) (AndFilter 0) = Some (Inl TypeError)"
  by (simp add: two_conditions_def equals_def FilterBuilder_where_def store_ops build_def
      serializeFilter_def eval_nat_numeral)



end
